theory Spec2Isabelle
  imports Main "HOL-Library.Sublist" "HOL-Library.Word"
begin

unbundle bit_operations_syntax

section \<open>Go strings\<close>

text \<open>
  A Go string is a sequence of bytes, here a \<open>string\<close> (a list of 8-bit characters).
  The functions of package \<open>strings\<close> that the client calls are written out as
  recursive functions over that list; indices are byte offsets, \<open>-1\<close> means "absent".
\<close>

fun Contains :: "string \<Rightarrow> string \<Rightarrow> bool" where
  "Contains [] substr = (substr = [])"
| "Contains (c # cs) substr = (prefix substr (c # cs) \<or> Contains cs substr)"

fun Index :: "string \<Rightarrow> string \<Rightarrow> int" where
  "Index [] substr = (if substr = [] then 0 else -1)"
| "Index (c # cs) substr =
     (if prefix substr (c # cs) then 0
      else (let i = Index cs substr in if i < 0 then -1 else i + 1))"

fun LastIndex :: "string \<Rightarrow> string \<Rightarrow> int" where
  "LastIndex [] substr = (if substr = [] then 0 else -1)"
| "LastIndex (c # cs) substr =
     (let i = LastIndex cs substr
      in if 0 \<le> i then i + 1
         else if prefix substr (c # cs) then 0 else -1)"

text \<open>
  \<open>strings.Split\<close> for a non-empty separator (the only call passes \<open>"@"\<close>): the pieces
  between the occurrences of the separator, scanned from the left, always at least one.
\<close>

fun Split :: "string \<Rightarrow> string \<Rightarrow> string list" where
  "Split [] sep = [[]]"
| "Split (c # cs) sep =
     (if prefix sep (c # cs) then [] # Split (drop (length sep - 1) cs) sep
      else (case Split cs sep of
              [] \<Rightarrow> [[c]]
            | p # ps \<Rightarrow> (c # p) # ps))"

definition TrimPrefix :: "string \<Rightarrow> string \<Rightarrow> string" where
  "TrimPrefix s pre = (if prefix pre s then drop (length pre) s else s)"

section \<open>Registry-name lookup and image-reference conversion\<close>

datatype error =
    RegistryNotFound string
      \<comment> \<open>\<open>fmt.Errorf("registry not found in Aqua: %s", hostname)\<close>\<close>
  | LookingUpRegistryName string error
      \<comment> \<open>\<open>fmt.Errorf("looking up registry name for %s: %w", originalRef, err)\<close>\<close>
  | IndexOutOfRange
      \<comment> \<open>the run-time panic of \<open>parts[0]\<close> on an empty slice\<close>

text \<open>The field \<open>registryCache map[string]string\<close>; the lock around the read is not modelled.\<close>

type_synonym registryCache = "string \<rightharpoonup> string"

definition normalizeHostname :: "string \<Rightarrow> string" where
  "normalizeHostname hostname =
     TrimPrefix (TrimPrefix hostname ''https://'') ''http://''"

definition GetRegistryName :: "registryCache \<Rightarrow> string \<Rightarrow> error + string" where
  "GetRegistryName registryCache hostname0 =
     (let hostname = normalizeHostname hostname0
      in case registryCache hostname of
           None \<Rightarrow> Inl (RegistryNotFound hostname)
         | Some registryName \<Rightarrow> Inr registryName)"

text \<open>
  \<open>ConvertImageRef\<close> in its three steps. A slice \<open>s[:i]\<close> is \<open>take\<close>, \<open>s[i+1:]\<close> is
  \<open>drop\<close>; every index comes from \<open>LastIndex\<close> or \<open>Index\<close> on the same string, so no
  slice is out of range.
\<close>

text \<open>Step 1, "Remove digest if present".\<close>

definition removeDigest :: "string \<Rightarrow> error + string" where
  "removeDigest imageRef =
     (if Contains imageRef ''@''
      then (case Split imageRef ''@'' of
              [] \<Rightarrow> Inl IndexOutOfRange
            | part0 # _ \<Rightarrow> Inr part0)
      else Inr imageRef)"

text \<open>Step 2, "Handle tag": the new \<open>imageRef\<close>, the \<open>tag\<close> and \<open>hasPort\<close>.\<close>

definition handleTag :: "string \<Rightarrow> string \<times> string \<times> bool" where
  "handleTag imageRef =
     (let tagIdx = LastIndex imageRef '':''
      in if tagIdx > 0 then
           (let beforeColon = take (nat tagIdx) imageRef
            in if Contains beforeColon ''/'' then
                 (take (nat tagIdx) imageRef, drop (nat (tagIdx + 1)) imageRef, False)
               else if Contains beforeColon ''.'' then
                 (imageRef, ''latest'', True)
               else
                 (take (nat tagIdx) imageRef, drop (nat (tagIdx + 1)) imageRef, False))
         else (imageRef, ''latest'', False))"

text \<open>Step 3, "Handle registry and repository": \<open>hostname\<close> and \<open>repository\<close>.\<close>

definition handleRegistry :: "string \<Rightarrow> bool \<Rightarrow> string \<times> string" where
  "handleRegistry imageRef hasPort =
     (let slashIdx = Index imageRef ''/''
      in if slashIdx > 0 then
           (let registryPart = take (nat slashIdx) imageRef
            in if Contains registryPart ''.'' \<or> (hasPort \<and> Contains registryPart '':'') then
                 (registryPart, drop (nat (slashIdx + 1)) imageRef)
               else (''docker.io'', imageRef))
         else (''docker.io'', imageRef))"

text \<open>The result \<open>(registryName, imageName, tag, err)\<close> is a sum: the error or the triple.\<close>

definition ConvertImageRef :: "registryCache \<Rightarrow> string \<Rightarrow> error + (string \<times> string \<times> string)" where
  "ConvertImageRef registryCache imageRef0 =
     (let originalRef = imageRef0
      in case removeDigest imageRef0 of
           Inl panic \<Rightarrow> Inl panic
         | Inr imageRef1 \<Rightarrow>
             (case handleTag imageRef1 of (imageRef, tag, hasPort) \<Rightarrow>
                (case handleRegistry imageRef hasPort of (hostname, repository) \<Rightarrow>
                   (case GetRegistryName registryCache hostname of
                      Inl err \<Rightarrow> Inl (LookingUpRegistryName originalRef err)
                    | Inr registryName \<Rightarrow> Inr (registryName, repository, tag)))))"

section \<open>Request signing\<close>

text \<open>
  \<open>[]byte(s)\<close> and back: a byte is an 8-bit word, a string is its bytes.
\<close>

type_synonym byte = "8 word"

definition bytes :: "string \<Rightarrow> byte list" where
  "bytes s = map (\<lambda>c. word_of_nat (of_char c)) s"

definition fromBytes :: "byte list \<Rightarrow> string" where
  "fromBytes bs = map (\<lambda>b. char_of (unat b)) bs"

text \<open>
  \<open>encoding/hex\<close>: \<open>EncodeToString\<close> writes \<open>hextable[v >> 4]\<close> and \<open>hextable[v & 0x0f]\<close>
  for every byte \<open>v\<close>.
\<close>

definition hextable :: string where
  "hextable = ''0123456789abcdef''"

fun EncodeToString :: "byte list \<Rightarrow> string" where
  "EncodeToString [] = []"
| "EncodeToString (v # src) =
     hextable ! unat (drop_bit 4 v) # hextable ! unat (v AND 0x0f) # EncodeToString src"

text \<open>
  \<open>crypto/subtle\<close> and \<open>crypto/hmac\<close>: \<open>hmac.Equal\<close> is \<open>ConstantTimeCompare(mac1, mac2) == 1\<close>,
  which answers 0 on different lengths and otherwise ORs the XOR of every pair of bytes into
  one byte \<open>v\<close> and returns \<open>ConstantTimeByteEq(v, 0)\<close>, that is
  \<open>int((uint32(x ^ y) - 1) >> 31)\<close>.
\<close>

definition ConstantTimeByteEq :: "byte \<Rightarrow> byte \<Rightarrow> int" where
  "ConstantTimeByteEq x y = uint (drop_bit 31 ((ucast (x XOR y) :: 32 word) - 1))"

fun orXor :: "byte \<Rightarrow> byte list \<Rightarrow> byte list \<Rightarrow> byte" where
  "orXor v (a # x) (b # y) = orXor (v OR (a XOR b)) x y"
| "orXor v _ _ = v"

definition ConstantTimeCompare :: "byte list \<Rightarrow> byte list \<Rightarrow> int" where
  "ConstantTimeCompare x y =
     (if length x \<noteq> length y then 0 else ConstantTimeByteEq (orXor 0 x y) 0)"

definition Equal :: "byte list \<Rightarrow> byte list \<Rightarrow> bool" where
  "Equal mac1 mac2 = (ConstantTimeCompare mac1 mac2 = 1)"

text \<open>
  HMAC-SHA256 itself is the standard library's: \<open>hmac_sha256 key message\<close> stands for
  \<open>hmac.New(sha256.New, key)\<close>, \<open>Write(message)\<close>, \<open>Sum(nil)\<close>, and is a parameter of
  every function that calls it.
\<close>

type_synonym mac = "byte list \<Rightarrow> byte list \<Rightarrow> byte list"

definition computeHMAC256 :: "mac \<Rightarrow> string \<Rightarrow> string \<Rightarrow> string" where
  "computeHMAC256 hmac_sha256 message secret =
     EncodeToString (hmac_sha256 (bytes secret) (bytes message))"

definition ValidateHMACSignature :: "mac \<Rightarrow> string \<Rightarrow> string \<Rightarrow> string \<Rightarrow> bool" where
  "ValidateHMACSignature hmac_sha256 message signature secret =
     (let expectedSig = computeHMAC256 hmac_sha256 message secret
      in Equal (bytes signature) (bytes expectedSig))"

record AuthConfig =
  Token :: string
  HMACSecret :: string

record TokenManager =
  config :: AuthConfig

text \<open>
  Of \<open>http.Request\<close> the signer reads \<open>Method\<close> and \<open>URL.String()\<close> (the field \<open>URL\<close> holds
  that rendering) and writes \<open>Header\<close>, a map from canonical header names to value lists;
  \<open>Header.Set\<close> replaces the list of a name by the one value (both names used are already in
  canonical form). The header map is an allocated one, as \<open>http.NewRequest\<close> makes it: a
  request whose \<open>Header\<close> is \<open>nil\<close> is outside this type.
\<close>

record Request =
  Method :: string
  URL :: string
  Header :: "string \<rightharpoonup> string list"

definition Set :: "(string \<rightharpoonup> string list) \<Rightarrow> string \<Rightarrow> string \<Rightarrow> (string \<rightharpoonup> string list)" where
  "Set h key val = h(key \<mapsto> [val])"

text \<open>
  \<open>SignRequest\<close> mutates the request behind its pointer and returns an error: the model
  returns both. \<open>now\<close> is the string \<open>time.Now().UTC().Format(time.RFC3339)\<close> evaluates to,
  read once; the format verbs \<open>%s\<close> paste their arguments unchanged.
\<close>

definition SignRequest :: "mac \<Rightarrow> TokenManager \<Rightarrow> string \<Rightarrow> Request \<Rightarrow> byte list \<Rightarrow> error option \<times> Request" where
  "SignRequest hmac_sha256 tm now req body =
     (if HMACSecret (config tm) = [] then (None, req)
      else
        (let timestamp = now;
             stringToSign = Method req @ [CHR 0x0A] @ URL req @ [CHR 0x0A] @ timestamp
                              @ [CHR 0x0A] @ fromBytes body;
             signature = computeHMAC256 hmac_sha256 stringToSign (HMACSecret (config tm));
             req1 = req\<lparr>Header := Set (Header req) ''X-Aqua-Timestamp'' timestamp\<rparr>;
             req2 = req1\<lparr>Header := Set (Header req1) ''X-Aqua-Signature'' signature\<rparr>
         in (None, req2)))"

subsection \<open>The canonical message in the specification's words\<close>

text \<open>
  The specification describes the signed message as the newline-joined concatenation of
  method, URL, timestamp and body. \<open>Join\<close> is \<open>strings.Join\<close>: the separator stands between
  neighbours only, never after the last element.
\<close>

fun Join :: "string list \<Rightarrow> string \<Rightarrow> string" where
  "Join [] sep = []"
| "Join [e] sep = e"
| "Join (e # f # elems) sep = e @ sep @ Join (f # elems) sep"

definition spec_canonical_message :: "string \<Rightarrow> string \<Rightarrow> string \<Rightarrow> string \<Rightarrow> string" where
  "spec_canonical_message method url timestamp body =
     Join [method, url, timestamp, body] [CHR 0x0A]"

section \<open>Facts about the string functions\<close>

lemma Contains_sublist: "Contains s substr = sublist substr s"
  by (induction s) (auto simp: sublist_Cons_right)

lemma Contains_byte: "Contains s [c] = (c \<in> set s)"
  by (induction s) auto

lemma takeWhile_absent: "c \<notin> set s \<Longrightarrow> takeWhile (\<lambda>x. x \<noteq> c) s = s"
  by (induction s) auto

lemma Split_byte: "Split s [c] \<noteq> [] \<and> hd (Split s [c]) = takeWhile (\<lambda>x. x \<noteq> c) s"
  by (induction s) (auto split: list.splits)

text \<open>The index \<open>parts[0]\<close> never panics: the working reference is the text before the first \<open>@\<close>.\<close>

lemma removeDigest_eq: "removeDigest imageRef = Inr (takeWhile (\<lambda>x. x \<noteq> CHR ''@'') imageRef)"
proof (cases "CHR ''@'' \<in> set imageRef")
  case True
  obtain p ps where s: "Split imageRef ''@'' = p # ps"
    using Split_byte [of imageRef "CHR ''@''"] by (cases "Split imageRef ''@''") auto
  with Split_byte [of imageRef "CHR ''@''"] have "p = takeWhile (\<lambda>x. x \<noteq> CHR ''@'') imageRef"
    by simp
  with True s show ?thesis by (simp add: removeDigest_def Contains_byte)
next
  case False
  then show ?thesis by (simp add: removeDigest_def Contains_byte takeWhile_absent)
qed

lemma Index_byte_absent: "c \<notin> set s \<Longrightarrow> Index s [c] = -1"
  by (induction s) (auto simp: Let_def)

lemma Index_byte_range: "- 1 \<le> Index s [c]"
  by (induction s) (auto simp: Let_def)

lemma Index_byte_present:
  "0 \<le> Index s [c] \<Longrightarrow> s = take (nat (Index s [c])) s @ c # drop (nat (Index s [c] + 1)) s"
proof (induction s)
  case Nil
  then show ?case by simp
next
  case (Cons a s)
  show ?case
  proof (cases "a = c")
    case True
    then show ?thesis by simp
  next
    case False
    with Cons.prems have nn: "0 \<le> Index s [c]"
      by (auto simp: Let_def split: if_splits)
    with False have e: "Index (a # s) [c] = Index s [c] + 1"
      by (simp add: Let_def)
    have n: "nat (Index s [c] + 1) = Suc (nat (Index s [c]))"
      using nn by simp
    have n2: "nat (Index s [c] + 1 + 1) = Suc (nat (Index s [c] + 1))"
      using nn by simp
    show ?thesis
      unfolding e n2 using Cons.IH [OF nn] n by simp
  qed
qed

lemma LastIndex_byte_absent: "c \<notin> set s \<Longrightarrow> LastIndex s [c] = -1"
  by (induction s) (auto simp: Let_def)

lemma LastIndex_byte_negative: "LastIndex s [c] < 0 \<Longrightarrow> c \<notin> set s"
  by (induction s) (auto simp: Let_def split: if_splits)

lemma LastIndex_byte_present:
  "0 \<le> LastIndex s [c] \<Longrightarrow>
     s = take (nat (LastIndex s [c])) s @ c # drop (nat (LastIndex s [c] + 1)) s"
proof (induction s)
  case Nil
  then show ?case by simp
next
  case (Cons a s)
  show ?case
  proof (cases "0 \<le> LastIndex s [c]")
    case True
    then have e: "LastIndex (a # s) [c] = LastIndex s [c] + 1"
      by (simp add: Let_def)
    have n: "nat (LastIndex s [c] + 1) = Suc (nat (LastIndex s [c]))"
      using True by simp
    have n2: "nat (LastIndex s [c] + 1 + 1) = Suc (nat (LastIndex s [c] + 1))"
      using True by simp
    show ?thesis
      unfolding e n2 using Cons.IH [OF True] n by simp
  next
    case False
    with Cons.prems have "a = c" "LastIndex (a # s) [c] = 0"
      by (auto simp: Let_def split: if_splits)
    then show ?thesis by simp
  qed
qed

section \<open>Facts about the byte comparison\<close>

lemma xor_zero_eq: "(a XOR b = 0) = (a = b)" for a b :: "'a::len word"
proof
  assume h: "a XOR b = 0"
  have "a = (a XOR b) XOR b" by (simp add: xor.assoc)
  then show "a = b" using h by simp
qed simp

lemma ConstantTimeByteEq_eq: "ConstantTimeByteEq x y = (if x = y then 1 else 0)"
proof (cases "x = y")
  case True
  then show ?thesis by (simp add: ConstantTimeByteEq_def)
next
  case False
  define z where "z = x XOR y"
  have z: "z \<noteq> 0" using False by (simp add: z_def xor_zero_eq)
  have lt: "unat z < 256" using unsigned_less [of z, where 'a = nat] by simp
  have uz: "unat (ucast z :: 32 word) = unat z"
    using lt by (simp add: unsigned_ucast_eq take_bit_nat_eq_self)
  have nz: "(ucast z :: 32 word) \<noteq> 0" using uz z by (metis unat_0_iff)
  have "unat ((ucast z :: 32 word) - 1) = unat z - 1"
    using unat_minus_one [OF nz] uz by simp
  then have "unat ((ucast z :: 32 word) - 1) < 2 ^ 31" using lt by simp
  then have d: "unat ((ucast z :: 32 word) - 1) div 2 ^ 31 = 0" by simp
  have "unat (drop_bit 31 ((ucast z :: 32 word) - 1)) = drop_bit 31 (unat ((ucast z :: 32 word) - 1))"
    by (rule unat_drop_bit_eq)
  also have "\<dots> = unat ((ucast z :: 32 word) - 1) div 2 ^ 31" by (rule drop_bit_eq_div)
  finally have "unat (drop_bit 31 ((ucast z :: 32 word) - 1)) = 0" using d by simp
  then have "drop_bit 31 ((ucast z :: 32 word) - 1) = 0" by (simp add: unat_0_iff)
  then show ?thesis using False by (simp add: ConstantTimeByteEq_def z_def)
qed

lemma orXor_zero: "length x = length y \<Longrightarrow> (orXor v x y = 0) = (v = 0 \<and> x = y)"
proof (induction v x y rule: orXor.induct)
  case (1 v a x b y)
  then show ?case by (auto simp: or_eq_0_iff xor_zero_eq)
qed auto

lemma Equal_eq: "Equal x y = (x = y)"
  by (auto simp: Equal_def ConstantTimeCompare_def ConstantTimeByteEq_eq orXor_zero)

lemma bytes_inj: "(bytes s = bytes t) = (s = t)"
proof -
  have "inj (\<lambda>c::char. (word_of_nat (of_char c) :: byte))"
  proof (rule injI)
    fix c d :: char
    assume "(word_of_nat (of_char c) :: byte) = word_of_nat (of_char d)"
    then have "unat (word_of_nat (of_char c) :: byte) = unat (word_of_nat (of_char d) :: byte)"
      by simp
    moreover have "(of_char c :: nat) < 256" "(of_char d :: nat) < 256"
      by simp_all
    ultimately have "(of_char c :: nat) = of_char d"
      by (simp add: unat_of_nat)
    then show "c = d" by simp
  qed
  then show ?thesis by (simp add: bytes_def inj_map_eq_map)
qed

lemma hextable_nth: "n < 16 \<Longrightarrow> hextable ! n \<in> set hextable"
proof -
  have "length hextable = 16" by (simp add: hextable_def)
  then show "n < 16 \<Longrightarrow> hextable ! n \<in> set hextable"
    using nth_mem [of n hextable] by simp
qed

lemma high_nibble: "unat (drop_bit 4 (v :: byte)) < 16"
proof -
  have "unat v < 256" using unsigned_less [of v, where 'a = nat] by simp
  moreover have "unat (drop_bit 4 v) = unat v div 2 ^ 4"
    using unat_drop_bit_eq [of 4 v] by (simp only: drop_bit_eq_div)
  ultimately show ?thesis by simp
qed

lemma low_nibble: "unat ((v :: byte) AND 0x0f) < 16"
proof -
  have "v AND 0x0f = take_bit 4 v"
    by (simp add: take_bit_eq_mask mask_eq_exp_minus_1)
  then have "unat (v AND 0x0f) = take_bit 4 (unat v)"
    by (simp add: unsigned_take_bit_eq)
  then show ?thesis by (simp add: take_bit_eq_mod)
qed

lemma EncodeToString_hex:
  "length (EncodeToString src) = 2 * length src \<and> set (EncodeToString src) \<subseteq> set hextable"
  by (induction src) (simp_all add: hextable_nth high_nibble low_nibble)

section \<open>Facts about the three steps of the conversion\<close>

lemmas convert_defs = ConvertImageRef_def removeDigest_def handleTag_def handleRegistry_def
  GetRegistryName_def normalizeHostname_def TrimPrefix_def

lemma removeDigest_append:
  "CHR ''@'' \<notin> set w \<Longrightarrow> removeDigest (w @ CHR ''@'' # digest) = Inr w"
  by (auto simp: removeDigest_eq takeWhile_tail)

text \<open>
  Cutting the tag off keeps a reference free of a leading slash, a trailing slash and an
  empty path segment, as long as no slash stands directly before a colon.
\<close>

lemma handleTag_keeps_shape:
  assumes "handleTag w = (r, t, hp)"
    and "\<not> prefix ''/'' w" and "\<not> suffix ''/'' w"
    and "\<not> Contains w ''//''" and "\<not> Contains w ''/:''"
  shows "\<not> prefix ''/'' r \<and> \<not> suffix ''/'' r \<and> \<not> Contains r ''//''"
proof (cases "r = w")
  case True
  with assms show ?thesis by simp
next
  case False
  let ?i = "LastIndex w '':''"
  from False assms(1) have pos: "0 < ?i" and r: "r = take (nat ?i) w"
    by (auto simp: handleTag_def Let_def split: if_splits)
  from pos have w: "w = r @ CHR '':'' # drop (nat (?i + 1)) w"
    using LastIndex_byte_present [of w "CHR '':''"] r by simp
  have p: "\<not> prefix ''/'' r"
  proof
    assume "prefix ''/'' r"
    then have "prefix ''/'' (r @ CHR '':'' # drop (nat (?i + 1)) w)"
      by (rule prefix_prefix)
    with w assms(2) show False by simp
  qed
  have s: "\<not> suffix ''/'' r"
  proof
    assume "suffix ''/'' r"
    then obtain r' where "r = r' @ ''/''"
      by (auto simp: suffix_def)
    with w have "w = r' @ ''/:'' @ drop (nat (?i + 1)) w" by simp
    then have "sublist ''/:'' w"
      unfolding sublist_def by blast
    with assms(5) show False by (simp add: Contains_sublist)
  qed
  have c: "\<not> Contains r ''//''"
  proof
    assume "Contains r ''//''"
    then have "sublist ''//'' r" by (simp add: Contains_sublist)
    then have "sublist ''//'' (r @ CHR '':'' # drop (nat (?i + 1)) w)"
      by (simp add: sublist_append)
    with w assms(4) show False by (simp add: Contains_sublist)
  qed
  from p s c show ?thesis by simp
qed

text \<open>Cutting the host off then leaves a repository without a slash at either end.\<close>

lemma handleRegistry_keeps_shape:
  assumes "handleRegistry r hp = (hostname, repository)"
    and "\<not> prefix ''/'' r" and "\<not> suffix ''/'' r" and "\<not> Contains r ''//''"
  shows "\<not> prefix ''/'' repository \<and> \<not> suffix ''/'' repository"
proof (cases "repository = r")
  case True
  with assms show ?thesis by simp
next
  case False
  let ?j = "Index r ''/''"
  from False assms(1) have pos: "0 < ?j" and rp: "repository = drop (nat (?j + 1)) r"
    by (auto simp: handleRegistry_def Let_def split: if_splits)
  from pos have r: "r = take (nat ?j) r @ CHR ''/'' # repository"
    using Index_byte_present [of r "CHR ''/''"] rp by simp
  have p: "\<not> prefix ''/'' repository"
  proof
    assume "prefix ''/'' repository"
    then obtain q where "repository = ''/'' @ q"
      by (auto simp: prefix_def)
    with r have "r = take (nat ?j) r @ ''//'' @ q" by simp
    then have "sublist ''//'' r"
      unfolding sublist_def by blast
    with assms(4) show False by (simp add: Contains_sublist)
  qed
  have s: "\<not> suffix ''/'' repository"
  proof
    assume "suffix ''/'' repository"
    then have "suffix ''/'' (take (nat ?j) r @ CHR ''/'' # repository)"
      by (simp add: suffix_def) (metis append.assoc append_Cons)
    with r assms(3) show False by simp
  qed
  from p s show ?thesis by simp
qed

section \<open>The reference parser\<close>

text \<open>
  Claim C1. For the reference \<open>registry.io:5000/a/b:tag\<close> the tag step looks at the last
  colon, finds a slash before it and cuts \<open>tag\<close> off; only then the host step runs, on
  \<open>registry.io:5000/a/b\<close>, and takes \<open>registry.io:5000\<close> as host and \<open>a/b\<close> as repository.
  The conversion returns the cache's name for that host with repository \<open>a/b\<close> and tag
  \<open>tag\<close>, and the wrapped not-found error when the cache has no entry for the host.
\<close>

theorem ConvertImageRef_port_and_path_tag:
  "handleTag ''registry.io:5000/a/b:tag'' = (''registry.io:5000/a/b'', ''tag'', False)
   \<and> handleRegistry ''registry.io:5000/a/b'' False = (''registry.io:5000'', ''a/b'')
   \<and> ConvertImageRef registryCache ''registry.io:5000/a/b:tag'' =
       (case registryCache ''registry.io:5000'' of
          None \<Rightarrow> Inl (LookingUpRegistryName ''registry.io:5000/a/b:tag''
                         (RegistryNotFound ''registry.io:5000''))
        | Some registryName \<Rightarrow> Inr (registryName, ''a/b'', ''tag''))"
  by (simp add: convert_defs split: option.split)

text \<open>
  Claim C2, as amended. The tag is \<open>latest\<close> whenever the working reference (the text before
  the first at-sign) has no colon beyond position 0, or the text before its last colon
  contains a dot and no slash, as in \<open>registry.io:5000/image\<close>. Having no colon after the
  last slash is not enough: a colon after a dot-less first component, or after an earlier
  slash, is read as the tag separator.
\<close>

theorem tag_latest_when_colon_is_port_or_absent:
  assumes "removeDigest imageRef = Inr workingRef"
    and "LastIndex workingRef '':'' \<le> 0
         \<or> (Contains (take (nat (LastIndex workingRef '':'')) workingRef) ''.''
            \<and> \<not> Contains (take (nat (LastIndex workingRef '':'')) workingRef) ''/'')"
    and "ConvertImageRef registryCache imageRef = Inr (registryName, repository, tag)"
  shows "tag = ''latest''"
  using assms
  by (auto simp: ConvertImageRef_def handleTag_def Let_def split: if_splits prod.splits sum.splits)

theorem tag_latest_when_colon_is_port_or_absent_witness:
  "removeDigest ''registry.io:5000/image'' = Inr ''registry.io:5000/image''
   \<and> (LastIndex ''registry.io:5000/image'' '':'' \<le> 0
         \<or> (Contains (take (nat (LastIndex ''registry.io:5000/image'' '':''))
                ''registry.io:5000/image'') ''.''
            \<and> \<not> Contains (take (nat (LastIndex ''registry.io:5000/image'' '':''))
                ''registry.io:5000/image'') ''/''))
   \<and> ConvertImageRef [''registry.io:5000'' \<mapsto> ''Custom Registry''] ''registry.io:5000/image''
       = Inr (''Custom Registry'', ''image'', ''latest'')"
  using tag_latest_when_colon_is_port_or_absent
     [of "''registry.io:5000/image''" "''registry.io:5000/image''"
         "[''registry.io:5000'' \<mapsto> ''Custom Registry'']"
         "''Custom Registry''" "''image''" "''latest''"]
  by (simp add: convert_defs)

text \<open>
  The claim as first stated fails at \<open>localhost:5000/image\<close>: no colon follows the last
  slash, yet the tag is \<open>5000/image\<close> and the repository \<open>localhost\<close>.
\<close>

theorem tag_not_latest_for_dotless_host_port:
  "CHR '':'' \<notin> set (drop (nat (LastIndex ''localhost:5000/image'' ''/'' + 1)) ''localhost:5000/image'')
   \<and> ConvertImageRef [''docker.io'' \<mapsto> ''Docker Hub''] ''localhost:5000/image'' =
       Inr (''Docker Hub'', ''localhost'', ''5000/image'')"
  by (simp add: convert_defs)

text \<open>
  Claim C3, as amended. The returned repository has neither a leading nor a trailing slash
  provided the working reference (the text before the first at-sign) itself neither begins
  nor ends with a slash and contains neither \<open>//\<close> nor \<open>/:\<close>. The parser trims no slash of
  its own beyond the one that separates host and repository.
\<close>

theorem repository_without_outer_slash:
  assumes "removeDigest imageRef = Inr workingRef"
    and "\<not> prefix ''/'' workingRef" and "\<not> suffix ''/'' workingRef"
    and "\<not> Contains workingRef ''//''" and "\<not> Contains workingRef ''/:''"
    and "ConvertImageRef registryCache imageRef = Inr (registryName, repository, tag)"
  shows "\<not> prefix ''/'' repository \<and> \<not> suffix ''/'' repository"
proof -
  obtain r t hp where ht: "handleTag workingRef = (r, t, hp)"
    by (cases "handleTag workingRef") auto
  obtain h rp where hr: "handleRegistry r hp = (h, rp)"
    by (cases "handleRegistry r hp") auto
  from assms(6) have "rp = repository"
    unfolding ConvertImageRef_def assms(1) by (simp add: ht hr split: sum.splits)
  with handleRegistry_keeps_shape [OF hr] handleTag_keeps_shape [OF ht assms(2-5)]
  show ?thesis by simp
qed

theorem repository_without_outer_slash_witness:
  "removeDigest ''gcr.io/project/image:v1.0@sha256:abcd1234'' = Inr ''gcr.io/project/image:v1.0''
   \<and> \<not> prefix ''/'' ''gcr.io/project/image:v1.0'' \<and> \<not> suffix ''/'' ''gcr.io/project/image:v1.0''
   \<and> \<not> Contains ''gcr.io/project/image:v1.0'' ''//''
   \<and> \<not> Contains ''gcr.io/project/image:v1.0'' ''/:''
   \<and> ConvertImageRef [''gcr.io'' \<mapsto> ''GCR''] ''gcr.io/project/image:v1.0@sha256:abcd1234'' =
        Inr (''GCR'', ''project/image'', ''v1.0'')
   \<and> \<not> prefix ''/'' ''project/image'' \<and> \<not> suffix ''/'' ''project/image''"
  using repository_without_outer_slash
     [of "''gcr.io/project/image:v1.0@sha256:abcd1234''" "''gcr.io/project/image:v1.0''"
         "[''gcr.io'' \<mapsto> ''GCR'']" "''GCR''" "''project/image''" "''v1.0''"]
  by (simp add: convert_defs suffix_def)

text \<open>
  The claim as first stated fails at \<open>/nginx\<close>, whose repository keeps the leading slash,
  and at \<open>library/nginx/\<close>, whose repository keeps the trailing one.
\<close>

theorem repository_keeps_outer_slash:
  "ConvertImageRef [''docker.io'' \<mapsto> ''Docker Hub''] ''/nginx'' =
       Inr (''Docker Hub'', ''/nginx'', ''latest'')
   \<and> prefix ''/'' ''/nginx''
   \<and> ConvertImageRef [''docker.io'' \<mapsto> ''Docker Hub''] ''library/nginx/'' =
       Inr (''Docker Hub'', ''library/nginx/'', ''latest'')
   \<and> suffix ''/'' ''library/nginx/''"
  by (simp add: convert_defs suffix_def)

text \<open>
  Claim C7. For \<open>gcr.io/project/image:v1.0@sha256:abcd1234\<close> the reference is cut at the
  first at-sign, and whatever follows it plays no part: for every digest text the working
  reference is \<open>gcr.io/project/image:v1.0\<close>, the host looked up is \<open>gcr.io\<close>, the repository
  \<open>project/image\<close> and the tag \<open>v1.0\<close>.
\<close>

theorem ConvertImageRef_tag_and_digest:
  "removeDigest (''gcr.io/project/image:v1.0'' @ ''@'' @ digest) = Inr ''gcr.io/project/image:v1.0''
   \<and> ConvertImageRef registryCache (''gcr.io/project/image:v1.0'' @ ''@'' @ digest) =
       (case registryCache ''gcr.io'' of
          None \<Rightarrow> Inl (LookingUpRegistryName (''gcr.io/project/image:v1.0'' @ ''@'' @ digest)
                         (RegistryNotFound ''gcr.io''))
        | Some registryName \<Rightarrow> Inr (registryName, ''project/image'', ''v1.0''))
   \<and> ConvertImageRef [''gcr.io'' \<mapsto> ''GCR''] ''gcr.io/project/image:v1.0@sha256:abcd1234'' =
       Inr (''GCR'', ''project/image'', ''v1.0'')"
proof -
  have r: "removeDigest (''gcr.io/project/image:v1.0'' @ ''@'' @ digest) =
             Inr ''gcr.io/project/image:v1.0''"
    using removeDigest_append [of "''gcr.io/project/image:v1.0''" digest] by simp
  have c: "ConvertImageRef registryCache (''gcr.io/project/image:v1.0'' @ ''@'' @ digest) =
       (case registryCache ''gcr.io'' of
          None \<Rightarrow> Inl (LookingUpRegistryName (''gcr.io/project/image:v1.0'' @ ''@'' @ digest)
                         (RegistryNotFound ''gcr.io''))
        | Some registryName \<Rightarrow> Inr (registryName, ''project/image'', ''v1.0''))"
    unfolding ConvertImageRef_def r
    by (simp add: handleTag_def handleRegistry_def GetRegistryName_def normalizeHostname_def
          TrimPrefix_def split: option.split)
  have "ConvertImageRef [''gcr.io'' \<mapsto> ''GCR''] ''gcr.io/project/image:v1.0@sha256:abcd1234'' =
       Inr (''GCR'', ''project/image'', ''v1.0'')"
    by (simp add: convert_defs)
  with r c show ?thesis by blast
qed

text \<open>
  Claim C10, as amended. When the working reference (the text before the first at-sign,
  the whole input when there is none) contains no slash but a colon, and the text before
  its last colon contains a dot, the colon is taken for a port separator: the tag is
  \<open>latest\<close>, the host looked up is \<open>docker.io\<close>, and the repository is the entire working
  reference, colon and what follows it included.
\<close>

theorem ConvertImageRef_dotted_name_with_colon:
  assumes "removeDigest imageRef = Inr workingRef"
    and "\<not> Contains workingRef ''/''"
    and "0 \<le> LastIndex workingRef '':''"
    and "Contains (take (nat (LastIndex workingRef '':'')) workingRef) ''.''"
  shows "ConvertImageRef registryCache imageRef =
           (case registryCache ''docker.io'' of
              None \<Rightarrow> Inl (LookingUpRegistryName imageRef (RegistryNotFound ''docker.io''))
            | Some registryName \<Rightarrow> Inr (registryName, workingRef, ''latest''))
         \<and> (\<not> Contains imageRef ''@'' \<longrightarrow> workingRef = imageRef)"
proof -
  let ?i = "LastIndex workingRef '':''"
  have pos: "0 < ?i"
  proof (rule ccontr)
    assume "\<not> 0 < ?i"
    with assms(3) have "?i = 0" by simp
    with assms(4) show False by simp
  qed
  have noslash: "\<not> Contains (take (nat ?i) workingRef) ''/''"
    using assms(2) by (auto simp: Contains_byte dest: in_set_takeD)
  have t: "handleTag workingRef = (workingRef, ''latest'', True)"
    using pos noslash assms(4) by (simp add: handleTag_def Let_def)
  have "Index workingRef ''/'' = -1"
    using assms(2) by (simp add: Contains_byte Index_byte_absent)
  then have r: "handleRegistry workingRef True = (''docker.io'', workingRef)"
    by (simp add: handleRegistry_def)
  have c: "ConvertImageRef registryCache imageRef =
           (case registryCache ''docker.io'' of
              None \<Rightarrow> Inl (LookingUpRegistryName imageRef (RegistryNotFound ''docker.io''))
            | Some registryName \<Rightarrow> Inr (registryName, workingRef, ''latest''))"
    unfolding ConvertImageRef_def assms(1)
    by (simp add: t r GetRegistryName_def normalizeHostname_def TrimPrefix_def split: option.split)
  have "\<not> Contains imageRef ''@'' \<longrightarrow> workingRef = imageRef"
    using assms(1) by (auto simp: removeDigest_def)
  with c show ?thesis by blast
qed

theorem ConvertImageRef_dotted_name_with_colon_witness:
  "removeDigest ''app.v2:tag'' = Inr ''app.v2:tag''
   \<and> \<not> Contains ''app.v2:tag'' ''/''
   \<and> 0 \<le> LastIndex ''app.v2:tag'' '':''
   \<and> Contains (take (nat (LastIndex ''app.v2:tag'' '':'')) ''app.v2:tag'') ''.''
   \<and> ConvertImageRef [''docker.io'' \<mapsto> ''Docker Hub''] ''app.v2:tag'' =
        Inr (''Docker Hub'', ''app.v2:tag'', ''latest'')"
  using ConvertImageRef_dotted_name_with_colon
     [of "''app.v2:tag''" "''app.v2:tag''" "[''docker.io'' \<mapsto> ''Docker Hub'']"]
  by (simp add: removeDigest_def)

text \<open>
  The claim as first stated fails at \<open>app.v2:tag@sha256:abcd\<close>: the input has no slash, the
  text before its last colon contains a dot, and the repository returned is \<open>app.v2:tag\<close>,
  not the entire input.
\<close>

theorem repository_is_not_the_input_with_digest:
  "\<not> Contains ''app.v2:tag@sha256:abcd'' ''/''
   \<and> LastIndex ''app.v2:tag@sha256:abcd'' '':'' = 17
   \<and> Contains (take 17 ''app.v2:tag@sha256:abcd'') ''.''
   \<and> ConvertImageRef [''docker.io'' \<mapsto> ''Docker Hub''] ''app.v2:tag@sha256:abcd'' =
       Inr (''Docker Hub'', ''app.v2:tag'', ''latest'')
   \<and> ''app.v2:tag'' \<noteq> ''app.v2:tag@sha256:abcd''"
  by (simp add: convert_defs)

section \<open>The registry-name lookup\<close>

text \<open>
  Claim C4, as amended. For every hostname that does not itself begin with \<open>http://\<close> or
  \<open>https://\<close>, and every cache table, looking up the hostname, the hostname behind
  \<open>http://\<close>, the hostname behind \<open>https://\<close> and its normalized form all give the same
  result, and the normalized form is the hostname itself. Letter case is not normalized:
  the key is compared byte for byte.
\<close>

theorem GetRegistryName_ignores_scheme_prefix:
  assumes "\<not> prefix ''http://'' hostname" and "\<not> prefix ''https://'' hostname"
  shows "normalizeHostname hostname = hostname
       \<and> GetRegistryName registryCache (''http://'' @ hostname) =
           GetRegistryName registryCache hostname
       \<and> GetRegistryName registryCache (''https://'' @ hostname) =
           GetRegistryName registryCache hostname
       \<and> GetRegistryName registryCache (normalizeHostname hostname) =
           GetRegistryName registryCache hostname"
  using assms by (simp add: GetRegistryName_def normalizeHostname_def TrimPrefix_def)

theorem GetRegistryName_ignores_scheme_prefix_witness:
  "\<not> prefix ''http://'' ''gcr.io'' \<and> \<not> prefix ''https://'' ''gcr.io''
   \<and> GetRegistryName [''gcr.io'' \<mapsto> ''GCR''] (''http://'' @ ''gcr.io'') =
       GetRegistryName [''gcr.io'' \<mapsto> ''GCR''] ''gcr.io''
   \<and> GetRegistryName [''gcr.io'' \<mapsto> ''GCR''] (''https://'' @ ''gcr.io'') =
       GetRegistryName [''gcr.io'' \<mapsto> ''GCR''] ''gcr.io''"
  using GetRegistryName_ignores_scheme_prefix [of "''gcr.io''" "[''gcr.io'' \<mapsto> ''GCR'']"]
  by simp

text \<open>
  The claim as first stated fails for a case variant: \<open>GCR.IO\<close> is not found in a table that
  holds \<open>gcr.io\<close>. It also fails for a hostname with two scheme prefixes, of which one
  lookup strips only one.
\<close>

theorem GetRegistryName_is_case_sensitive:
  "GetRegistryName [''gcr.io'' \<mapsto> ''GCR''] ''gcr.io'' = Inr ''GCR''
   \<and> GetRegistryName [''gcr.io'' \<mapsto> ''GCR''] ''GCR.IO'' = Inl (RegistryNotFound ''GCR.IO'')
   \<and> GetRegistryName [''gcr.io'' \<mapsto> ''GCR''] ''http://http://gcr.io'' =
       Inl (RegistryNotFound ''http://gcr.io'')
   \<and> GetRegistryName [''gcr.io'' \<mapsto> ''GCR''] (normalizeHostname ''http://http://gcr.io'') =
       Inr ''GCR''"
  by (simp add: GetRegistryName_def normalizeHostname_def TrimPrefix_def)

text \<open>
  Claim C8. On the empty table the lookup fails with the not-found error for every
  hostname, and so does the conversion of every reference. On any table the lookup fails
  with the not-found error when the normalized hostname is not a key of the table, and
  returns the stored name when it is.
\<close>

theorem GetRegistryName_not_found_iff_absent:
  "GetRegistryName Map.empty hostname = Inl (RegistryNotFound (normalizeHostname hostname))
   \<and> (normalizeHostname hostname \<notin> dom registryCache \<longrightarrow>
        GetRegistryName registryCache hostname = Inl (RegistryNotFound (normalizeHostname hostname)))
   \<and> (registryCache (normalizeHostname hostname) = Some registryName \<longrightarrow>
        GetRegistryName registryCache hostname = Inr registryName)
   \<and> (\<exists>h. ConvertImageRef Map.empty imageRef =
          Inl (LookingUpRegistryName imageRef (RegistryNotFound h)))"
proof -
  have "\<exists>h. ConvertImageRef Map.empty imageRef =
          Inl (LookingUpRegistryName imageRef (RegistryNotFound h))"
    by (simp add: GetRegistryName_def ConvertImageRef_def removeDigest_eq Let_def split: prod.split)
  then show ?thesis
    by (auto simp: GetRegistryName_def Let_def domIff)
qed

theorem GetRegistryName_not_found_iff_absent_witness:
  "normalizeHostname ''http://quay.io'' \<notin> dom [''gcr.io'' \<mapsto> ''GCR'']
   \<and> GetRegistryName [''gcr.io'' \<mapsto> ''GCR''] ''http://quay.io'' = Inl (RegistryNotFound ''quay.io'')
   \<and> [''gcr.io'' \<mapsto> ''GCR''] (normalizeHostname ''https://gcr.io'') = Some ''GCR''
   \<and> GetRegistryName [''gcr.io'' \<mapsto> ''GCR''] ''https://gcr.io'' = Inr ''GCR''
   \<and> GetRegistryName Map.empty ''gcr.io'' = Inl (RegistryNotFound ''gcr.io'')"
  using GetRegistryName_not_found_iff_absent
          [of "''http://quay.io''" "[''gcr.io'' \<mapsto> ''GCR'']" "''GCR''" "''nginx:latest''"]
        GetRegistryName_not_found_iff_absent
          [of "''https://gcr.io''" "[''gcr.io'' \<mapsto> ''GCR'']" "''GCR''" "''nginx:latest''"]
        GetRegistryName_not_found_iff_absent
          [of "''gcr.io''" "[''gcr.io'' \<mapsto> ''GCR'']" "''GCR''" "''nginx:latest''"]
  by (simp add: normalizeHostname_def TrimPrefix_def)

section \<open>The request signer\<close>

text \<open>
  Claim C5. With a non-empty secret, \<open>SignRequest\<close> returns no error and changes only two
  headers. \<open>X-Aqua-Timestamp\<close> is the timestamp it read. \<open>X-Aqua-Signature\<close> is the hex encoding
  of the HMAC, keyed with the secret, of the newline-joined method, URL, that same
  timestamp and body, in this order; the message ends with the body, and the signature
  has two lower-case hex digits for every byte of the MAC.
\<close>

theorem SignRequest_signs_canonical_message:
  assumes "HMACSecret (config tm) \<noteq> []"
  shows "SignRequest hmac_sha256 tm now req body =
           (None, req\<lparr>Header := (Header req)
              (''X-Aqua-Timestamp'' \<mapsto> [now],
               ''X-Aqua-Signature'' \<mapsto>
                 [EncodeToString (hmac_sha256 (bytes (HMACSecret (config tm)))
                    (bytes (spec_canonical_message (Method req) (URL req) now (fromBytes body))))])\<rparr>)
         \<and> suffix (fromBytes body)
              (spec_canonical_message (Method req) (URL req) now (fromBytes body))
         \<and> length (computeHMAC256 hmac_sha256 message (HMACSecret (config tm))) =
              2 * length (hmac_sha256 (bytes (HMACSecret (config tm))) (bytes message))
         \<and> set (computeHMAC256 hmac_sha256 message (HMACSecret (config tm)))
              \<subseteq> set ''0123456789abcdef''"
proof -
  have "set (computeHMAC256 hmac_sha256 message (HMACSecret (config tm))) \<subseteq> set hextable"
    by (simp add: computeHMAC256_def EncodeToString_hex)
  then have "set (computeHMAC256 hmac_sha256 message (HMACSecret (config tm)))
               \<subseteq> set ''0123456789abcdef''"
    by (simp only: hextable_def)
  moreover have "length (computeHMAC256 hmac_sha256 message (HMACSecret (config tm))) =
              2 * length (hmac_sha256 (bytes (HMACSecret (config tm))) (bytes message))"
    by (simp add: computeHMAC256_def EncodeToString_hex)
  moreover have "SignRequest hmac_sha256 tm now req body =
           (None, req\<lparr>Header := (Header req)
              (''X-Aqua-Timestamp'' \<mapsto> [now],
               ''X-Aqua-Signature'' \<mapsto>
                 [EncodeToString (hmac_sha256 (bytes (HMACSecret (config tm)))
                    (bytes (spec_canonical_message (Method req) (URL req) now (fromBytes body))))])\<rparr>)"
    using assms
    by (simp add: SignRequest_def Set_def computeHMAC256_def spec_canonical_message_def Let_def)
  moreover have "suffix (fromBytes body)
              (spec_canonical_message (Method req) (URL req) now (fromBytes body))"
    by (simp add: spec_canonical_message_def suffix_def)
  ultimately show ?thesis by blast
qed

theorem SignRequest_signs_canonical_message_witness:
  "HMACSecret (config \<lparr>config = \<lparr>Token = ''t'', HMACSecret = ''k''\<rparr>\<rparr>) \<noteq> []
   \<and> fst (SignRequest (\<lambda>key message. key @ message)
        \<lparr>config = \<lparr>Token = ''t'', HMACSecret = ''k''\<rparr>\<rparr> ''2024-01-01T00:00:00Z''
        \<lparr>Method = ''GET'', URL = ''https://aqua.example/api'', Header = Map.empty\<rparr> []) = None
   \<and> Header (snd (SignRequest (\<lambda>key message. key @ message)
        \<lparr>config = \<lparr>Token = ''t'', HMACSecret = ''k''\<rparr>\<rparr> ''2024-01-01T00:00:00Z''
        \<lparr>Method = ''GET'', URL = ''https://aqua.example/api'', Header = Map.empty\<rparr> []))
        ''X-Aqua-Timestamp'' = Some [''2024-01-01T00:00:00Z'']"
  using SignRequest_signs_canonical_message
     [of "\<lparr>config = \<lparr>Token = ''t'', HMACSecret = ''k''\<rparr>\<rparr>" "\<lambda>key message. key @ message"
         "''2024-01-01T00:00:00Z''"
         "\<lparr>Method = ''GET'', URL = ''https://aqua.example/api'', Header = Map.empty\<rparr>" "[]"]
  by simp

text \<open>
  Claim C6. Verifying the signature computed for a message and a secret succeeds, and
  verification succeeds for no other signature: a supplied signature that differs from the
  expected one in any byte, or in length, is rejected.
\<close>

theorem ValidateHMACSignature_accepts_exactly_the_signature:
  "ValidateHMACSignature hmac_sha256 message (computeHMAC256 hmac_sha256 message secret) secret
   \<and> ValidateHMACSignature hmac_sha256 message signature secret =
       (signature = computeHMAC256 hmac_sha256 message secret)"
  by (simp add: ValidateHMACSignature_def Equal_eq bytes_inj)

text \<open>
  Claim C9. With an empty secret \<open>SignRequest\<close> returns no error and the request as it was:
  no header is added, neither \<open>X-Aqua-Timestamp\<close> nor \<open>X-Aqua-Signature\<close>.
\<close>

theorem SignRequest_without_secret_is_noop:
  assumes "HMACSecret (config tm) = []"
  shows "SignRequest hmac_sha256 tm now req body = (None, req)"
  using assms by (simp add: SignRequest_def)

theorem SignRequest_without_secret_is_noop_witness:
  "HMACSecret (config \<lparr>config = \<lparr>Token = ''t'', HMACSecret = []\<rparr>\<rparr>) = []
   \<and> SignRequest (\<lambda>key message. key @ message) \<lparr>config = \<lparr>Token = ''t'', HMACSecret = []\<rparr>\<rparr>
        ''2024-01-01T00:00:00Z''
        \<lparr>Method = ''GET'', URL = ''https://aqua.example/api'', Header = Map.empty\<rparr> []
       = (None, \<lparr>Method = ''GET'', URL = ''https://aqua.example/api'', Header = Map.empty\<rparr>)
   \<and> Header (snd (SignRequest (\<lambda>key message. key @ message)
        \<lparr>config = \<lparr>Token = ''t'', HMACSecret = []\<rparr>\<rparr> ''2024-01-01T00:00:00Z''
        \<lparr>Method = ''GET'', URL = ''https://aqua.example/api'', Header = Map.empty\<rparr> []))
        ''X-Aqua-Signature'' = None"
  using SignRequest_without_secret_is_noop
     [of "\<lparr>config = \<lparr>Token = ''t'', HMACSecret = []\<rparr>\<rparr>" "\<lambda>key message. key @ message"
         "''2024-01-01T00:00:00Z''"
         "\<lparr>Method = ''GET'', URL = ''https://aqua.example/api'', Header = Map.empty\<rparr>" "[]"]
  by simp

end
